theory Spec2Isabelle
  imports Main "HOL-Library.Word"
begin

section \<open>The Go runtime objects the client is built from\<close>

text \<open>
  The client (easemob.go) owns one buffered channel \<^verbatim>\<open>limiterChan\<close> (the permit pool), one
  \<^verbatim>\<open>time.Ticker\<close> (the reset clock), one unbuffered channel \<^verbatim>\<open>exitCh\<close> and one background
  goroutine \<^verbatim>\<open>limiter()\<close>. \<^verbatim>\<open>SetLimiter\<close> replaces the channel and the ticker by new objects
  while goroutines may still wait on the old ones, so channels and tickers live in a store and
  the struct fields hold references into it.
\<close>

type_synonym ref = nat

text \<open>A \<^verbatim>\<open>chan bool\<close>: capacity, buffered values (oldest first), and whether it was closed.\<close>

record chan =
  ch_cap :: nat
  ch_buf :: "bool list"
  ch_closed :: bool

text \<open>
  A \<^verbatim>\<open>time.Ticker\<close>: its period, whether it still fires (\<^verbatim>\<open>Stop\<close> not yet called), and
  whether a tick waits in its channel \<^verbatim>\<open>C\<close>, which has room for one tick.
\<close>

record ticker =
  tk_period :: "64 word"
  tk_running :: bool
  tk_pending :: bool

text \<open>
  Where the goroutine \<^verbatim>\<open>limiter()\<close> stands:
  \<^item> \<open>LSelect\<close>: at the top of the \<^verbatim>\<open>for\<close>, about to enter the \<^verbatim>\<open>select\<close>;
  \<^item> \<open>LWait t\<close>: parked in the \<^verbatim>\<open>select\<close>, on the channel of ticker \<open>t\<close> and on \<^verbatim>\<open>exitCh\<close>;
  \<^item> \<open>LLoop i\<close>: about to test \<^verbatim>\<open>i < cap(eb.limiterChan)\<close>;
  \<^item> \<open>LRecv i\<close>: the test passed, about to run \<^verbatim>\<open><-eb.limiterChan\<close>;
  \<^item> \<open>LParked i c\<close>: parked in that receive, on channel \<open>c\<close>;
  \<^item> \<open>LExited\<close>: returned.
\<close>

datatype lpc = LSelect | LWait ref | LLoop nat | LRecv nat | LParked nat ref | LExited

text \<open>
  Go errors. \<open>Wrap p e\<close> is \<^verbatim>\<open>fmt.Errorf(p + "%w", e)\<close>; \<open>Canceled\<close> and \<open>DeadlineExceeded\<close> are
  the two values of \<^verbatim>\<open>ctx.Err()\<close>; \<open>External\<close> is an error made by the HTTP library
  (transport failure, JSON decoding).
\<close>

datatype error =
  ErrorString string
  | Wrap string error
  | Canceled
  | DeadlineExceeded
  | External string

fun Error :: "error \<Rightarrow> string" where
  "Error (ErrorString s) = s"
| "Error (Wrap p e) = p @ Error e"
| "Error Canceled = ''context canceled''"
| "Error DeadlineExceeded = ''context deadline exceeded''"
| "Error (External s) = s"

text \<open>The state of a caller's \<^verbatim>\<open>context.Context\<close> as a \<^verbatim>\<open>select\<close> observes it.\<close>

datatype ctx = Active | CtxCanceled | CtxDeadlineExceeded

fun ctx_Err :: "ctx \<Rightarrow> error option" where
  "ctx_Err Active = None"
| "ctx_Err CtxCanceled = Some Canceled"
| "ctx_Err CtxDeadlineExceeded = Some DeadlineExceeded"

text \<open>
  The transport handle \<^verbatim>\<open>*ureq.Client\<close> (a library outside this repository), as far as the
  client uses it: a timeout and headers; \<^verbatim>\<open>Clone\<close> copies, \<^verbatim>\<open>Set\<close> stores one header,
  \<^verbatim>\<open>Timeout\<close> stores the timeout.
\<close>

record Client =
  cl_timeout :: "64 word"
  cl_headers :: "(string \<times> string) list"

definition ureq_New :: Client where
  "ureq_New = \<lparr>cl_timeout = 0, cl_headers = []\<rparr>"

definition Clone :: "Client \<Rightarrow> Client" where
  "Clone c = c"

definition Set :: "string \<Rightarrow> string \<Rightarrow> Client \<Rightarrow> Client" where
  "Set k v c = c\<lparr>cl_headers := (k, v) # filter (\<lambda>p. fst p \<noteq> k) (cl_headers c)\<rparr>"


section \<open>The client state\<close>

text \<open>
  Instants (\<^verbatim>\<open>time.Time\<close>) are nanoseconds on one time line, as integers; durations
  (\<^verbatim>\<open>time.Duration\<close>) are Go's \<^verbatim>\<open>int64\<close> nanoseconds.
\<close>

type_synonym time = int

definition Second :: "64 word" where
  "Second = 1000000000"

definition Before :: "time \<Rightarrow> time \<Rightarrow> bool" where
  "Before t u = (t < u)"

definition Add :: "time \<Rightarrow> 64 word \<Rightarrow> time" where
  "Add t d = t + sint d"

text \<open>The fields of \<^verbatim>\<open>struct Easemob\<close>. The zero \<^verbatim>\<open>time.Time\<close> is instant 0.\<close>

record Easemob =
  client :: Client
  baseURL_Host :: string
  orgName :: string
  appName :: string
  clientId :: string
  clientSecret :: string
  accessToken :: string
  accessTokenExpiresAt :: time
  limiterResetTicker :: ref
  limiterChan :: ref

text \<open>The body of the credential exchange request, \<^verbatim>\<open>refreshTokenReq\<close>, and a sent request.\<close>

record refreshTokenReq =
  GrantType :: string
  ClientId :: string
  ClientSecret :: string
  TTL :: "64 word"

text \<open>
  \<^verbatim>\<open>GetURL(subPath)\<close> resolves \<^verbatim>\<open>path.Join(orgName, appName, subPath)\<close> against
  \<^verbatim>\<open>https://host\<close>; the two library functions stay uninterpreted.
\<close>

datatype url = ResolveReference string "string list"

text \<open>
  The whole system: the struct, the store of channels and tickers, the place of the
  \<^verbatim>\<open>limiter()\<close> goroutine, whether a \<^verbatim>\<open>Close\<close> call is parked in \<^verbatim>\<open>eb.exitCh <- struct{}{}\<close>
  (it then still holds the write lock \<^verbatim>\<open>mu\<close>), and the credential exchange requests sent so
  far, oldest first.
\<close>

record world =
  eb :: Easemob
  chans :: "chan list"
  tickers :: "ticker list"
  lpc :: lpc
  exit_sender :: bool
  sent :: "(url \<times> refreshTokenReq) list"

text \<open>
  What a call does: it returns, it panics, or it blocks (the calling goroutine is parked;
  the world is the one it is parked in).
\<close>

datatype 'a outcome = Returns 'a world | Panics string world | Blocks world

definition theChan :: "world \<Rightarrow> chan" where
  "theChan w = chans w ! limiterChan (eb w)"

definition occupancy :: "world \<Rightarrow> nat" where
  "occupancy w = length (ch_buf (theChan w))"

definition mu_locked :: "world \<Rightarrow> bool" where
  "mu_locked w = exit_sender w"

section \<open>Construction, shutdown, reconfiguration\<close>

definition NewEasemob :: "string \<Rightarrow> string \<Rightarrow> string \<Rightarrow> string \<Rightarrow> string \<Rightarrow> error + world" where
  "NewEasemob host org app cid secret =
     (if length host < 1 \<or> length org < 1 \<or> length app < 1 \<or>
         length cid < 1 \<or> length secret < 1
      then Inl (ErrorString ''invalid params'')
      else Inr \<lparr>
        eb = \<lparr>client = ureq_New, baseURL_Host = host, orgName = org, appName = app,
              clientId = cid, clientSecret = secret,
              accessToken = [], accessTokenExpiresAt = 0,
              limiterResetTicker = 0, limiterChan = 0\<rparr>,
        chans = [\<lparr>ch_cap = 1, ch_buf = [], ch_closed = False\<rparr>],
        tickers = [\<lparr>tk_period = Second, tk_running = True, tk_pending = False\<rparr>],
        lpc = LSelect,
        exit_sender = False,
        sent = []\<rparr>)"




text \<open>
  \<^verbatim>\<open>SetLimiter(rate uint32, interval time.Duration)\<close>: under the write lock, a new ticker
  (\<^verbatim>\<open>time.NewTicker\<close> panics on a non-positive interval) and a new channel of capacity
  \<^verbatim>\<open>rate\<close> are made and stored in the two fields. Nothing else is touched.
\<close>

definition SetLimiter :: "32 word \<Rightarrow> 64 word \<Rightarrow> world \<Rightarrow> unit outcome" where
  "SetLimiter rate interval w =
     (if mu_locked w then Blocks w
      else if sint interval \<le> 0 then Panics ''non-positive interval for NewTicker'' w
      else Returns ()
        (w\<lparr>tickers := tickers w @ [\<lparr>tk_period = interval, tk_running = True, tk_pending = False\<rparr>],
           chans := chans w @ [\<lparr>ch_cap = unat rate, ch_buf = [], ch_closed = False\<rparr>],
           eb := (eb w)\<lparr>limiterResetTicker := length (tickers w),
                        limiterChan := length (chans w)\<rparr>\<rparr>))"


definition GetURL :: "string \<Rightarrow> world \<Rightarrow> url outcome" where
  "GetURL subPath w =
     (if mu_locked w then Blocks w
      else Returns (ResolveReference (baseURL_Host (eb w))
                     [orgName (eb w), appName (eb w), subPath]) w)"

section \<open>The reset clock and the reset loop\<close>

text \<open>
  One firing of ticker \<open>t\<close>: a stopped ticker does nothing; a tick is handed to
  \<^verbatim>\<open>limiter()\<close> when it is parked in its \<^verbatim>\<open>select\<close> on this ticker; otherwise it is put into
  \<^verbatim>\<open>C\<close>, or dropped when \<^verbatim>\<open>C\<close> already holds one.
\<close>

definition tick :: "ref \<Rightarrow> world \<Rightarrow> world" where
  "tick t w =
     (if \<not> tk_running (tickers w ! t) then w
      else if lpc w = LWait t then w\<lparr>lpc := LLoop 0\<rparr>
      else w\<lparr>tickers := (tickers w)[t := (tickers w ! t)\<lparr>tk_pending := True\<rparr>]\<rparr>)"

text \<open>
  One step of \<^verbatim>\<open>limiter()\<close>; \<open>None\<close> when it is parked or has returned. When both cases of
  the \<^verbatim>\<open>select\<close> are ready Go picks one at random: \<open>pick_tick\<close> is that choice. The body
  cannot panic (receiving from a closed channel returns at once), so the deferred
  \<^verbatim>\<open>recover\<close> never acts.
\<close>

definition limiter :: "bool \<Rightarrow> world \<Rightarrow> world option" where
  "limiter pick_tick w =
     (case lpc w of
        LSelect \<Rightarrow>
          (let t = limiterResetTicker (eb w);
               tick_ready = tk_pending (tickers w ! t);
               exit_ready = exit_sender w
           in if tick_ready \<and> (\<not> exit_ready \<or> pick_tick)
              then Some (w\<lparr>tickers := (tickers w)[t := (tickers w ! t)\<lparr>tk_pending := False\<rparr>],
                           lpc := LLoop 0\<rparr>)
              else if exit_ready then Some (w\<lparr>exit_sender := False, lpc := LExited\<rparr>)
              else Some (w\<lparr>lpc := LWait t\<rparr>))
      | LLoop i \<Rightarrow>
          (if i < ch_cap (theChan w) then Some (w\<lparr>lpc := LRecv i\<rparr>)
           else Some (w\<lparr>lpc := LSelect\<rparr>))
      | LRecv i \<Rightarrow>
          (let c = limiterChan (eb w); ch = chans w ! c
           in if ch_buf ch \<noteq> []
              then Some (w\<lparr>chans := (chans w)[c := ch\<lparr>ch_buf := tl (ch_buf ch)\<rparr>],
                           lpc := LLoop (Suc i)\<rparr>)
              else if ch_closed ch then Some (w\<lparr>lpc := LLoop (Suc i)\<rparr>)
              else Some (w\<lparr>lpc := LParked i c\<rparr>))
      | LWait t \<Rightarrow> None
      | LParked i c \<Rightarrow> None
      | LExited \<Rightarrow> None)"

text \<open>\<^verbatim>\<open>limiter()\<close> running alone for at most \<open>n\<close> steps, until it parks or returns.\<close>

fun limiter_run :: "nat \<Rightarrow> world \<Rightarrow> world" where
  "limiter_run 0 w = w"
| "limiter_run (Suc n) w =
     (case limiter True w of None \<Rightarrow> w | Some w' \<Rightarrow> limiter_run n w')"

section \<open>Admission\<close>

text \<open>
  \<^verbatim>\<open>getLimiter(ctx)\<close> is one \<^verbatim>\<open>select\<close> over the send \<^verbatim>\<open>eb.limiterChan <- true\<close> and
  \<^verbatim>\<open>ctx.Done()\<close>. The send can proceed when the channel is closed (it then panics), when a
  receiver is parked on the channel (the value is handed over), or when the buffer has room.
  When both cases can proceed Go picks one at random (\<open>pick_send\<close>); when neither can, the
  caller is parked.
\<close>

definition send_ready :: "world \<Rightarrow> bool" where
  "send_ready w =
     (let c = limiterChan (eb w); ch = chans w ! c
      in ch_closed ch \<or> (case lpc w of LParked i c' \<Rightarrow> c' = c | _ \<Rightarrow> False)
         \<or> length (ch_buf ch) < ch_cap ch)"

definition send :: "world \<Rightarrow> error option outcome" where
  "send w =
     (let c = limiterChan (eb w); ch = chans w ! c
      in if ch_closed ch then Panics ''send on closed channel'' w
         else case lpc w of
                LParked i c' \<Rightarrow>
                  if c' = c then Returns None (w\<lparr>lpc := LLoop (Suc i)\<rparr>)
                  else Returns None (w\<lparr>chans := (chans w)[c := ch\<lparr>ch_buf := ch_buf ch @ [True]\<rparr>]\<rparr>)
              | _ \<Rightarrow> Returns None (w\<lparr>chans := (chans w)[c := ch\<lparr>ch_buf := ch_buf ch @ [True]\<rparr>]\<rparr>))"

definition getLimiter :: "world \<Rightarrow> ctx \<Rightarrow> bool \<Rightarrow> error option outcome" where
  "getLimiter w ctx pick_send =
     (if send_ready w \<and> (ctx = Active \<or> pick_send) then send w
      else if ctx \<noteq> Active then Returns (ctx_Err ctx) w
      else Blocks w)"

definition GetBaseClient :: "world \<Rightarrow> ctx \<Rightarrow> bool \<Rightarrow> (error + Client) outcome" where
  "GetBaseClient w ctx pick_send =
     (case getLimiter w ctx pick_send of
        Returns (Some e) w1 \<Rightarrow> Returns (Inl e) w1
      | Returns None w1 \<Rightarrow>
          (if mu_locked w1 then Blocks w1
           else Returns (Inr (Clone (client (eb w1)))) w1)
      | Panics m w1 \<Rightarrow> Panics m w1
      | Blocks w1 \<Rightarrow> Blocks w1)"

section \<open>The token cache\<close>

text \<open>
  \<^verbatim>\<open>strings.TrimSpace\<close> removes leading and trailing Unicode white space. On the bytes of a
  string these are the UTF-8 encodings of U+0009 to U+000D, U+0020, U+0085, U+00A0, U+1680,
  U+2000 to U+200A, U+2028, U+2029, U+202F, U+205F and U+3000.
\<close>

definition whiteSpace :: "nat list list" where
  "whiteSpace =
     [[0x09], [0x0A], [0x0B], [0x0C], [0x0D], [0x20],
      [0xC2, 0x85], [0xC2, 0xA0],
      [0xE1, 0x9A, 0x80],
      [0xE2, 0x80, 0x80], [0xE2, 0x80, 0x81], [0xE2, 0x80, 0x82], [0xE2, 0x80, 0x83],
      [0xE2, 0x80, 0x84], [0xE2, 0x80, 0x85], [0xE2, 0x80, 0x86], [0xE2, 0x80, 0x87],
      [0xE2, 0x80, 0x88], [0xE2, 0x80, 0x89], [0xE2, 0x80, 0x8A],
      [0xE2, 0x80, 0xA8], [0xE2, 0x80, 0xA9], [0xE2, 0x80, 0xAF],
      [0xE2, 0x81, 0x9F],
      [0xE3, 0x80, 0x80]]"

text \<open>The number of bytes of the white space rune that \<open>s\<close> starts with, 0 when there is none.\<close>

definition spaceWidth :: "nat list list \<Rightarrow> string \<Rightarrow> nat" where
  "spaceWidth encs s =
     (case find (\<lambda>e. take (length e) (map of_char s) = e) encs of
        None \<Rightarrow> 0
      | Some e \<Rightarrow> length e)"

function trimLeft :: "nat list list \<Rightarrow> string \<Rightarrow> string" where
  "trimLeft encs s =
     (if spaceWidth encs s = 0 \<or> length s < spaceWidth encs s then s
      else trimLeft encs (drop (spaceWidth encs s) s))"
  by pat_completeness auto
termination
  by (relation "measure (\<lambda>(encs, s). length s)") auto

declare trimLeft.simps [simp del]

definition TrimSpace :: "string \<Rightarrow> string" where
  "TrimSpace s = rev (trimLeft (map rev whiteSpace) (rev (trimLeft whiteSpace s)))"

text \<open>The decoded body of a successful credential exchange, \<^verbatim>\<open>refreshTokenResp\<close>.\<close>

record refreshTokenResp =
  Application :: string
  AccessToken :: string
  ExpiresIn :: "64 word"

text \<open>
  What \<^verbatim>\<open>RefreshToken\<close> reads from the \<^verbatim>\<open>*ureq.Response\<close>: \<^verbatim>\<open>res.OK()\<close>, \<^verbatim>\<open>res.Status\<close>,
  the text of \<^verbatim>\<open>res.Text()\<close> and the result of \<^verbatim>\<open>res.JSON(resp)\<close>.
\<close>

record response =
  OK :: bool
  Status :: string
  Text :: string
  JSON :: "error + refreshTokenResp"

text \<open>
  What the outside world gives one \<^verbatim>\<open>RefreshToken\<close> call: the random choice of its
  \<^verbatim>\<open>select\<close>, the result of \<^verbatim>\<open>...End()\<close> (a transport error or a response), and the
  value of \<^verbatim>\<open>time.Now()\<close> when the token is stored.
\<close>

record refresh_env =
  r_pick :: bool
  r_End :: "error + response"
  r_Now :: time

definition RefreshToken :: "world \<Rightarrow> ctx \<Rightarrow> 64 word \<Rightarrow> refresh_env \<Rightarrow> error option outcome" where
  "RefreshToken w ctx ttl env =
     (case GetBaseClient w ctx (r_pick env) of
        Returns (Inl e) w1 \<Rightarrow> Returns (Some (Wrap ''get client error: '' e)) w1
      | Panics m w1 \<Rightarrow> Panics m w1
      | Blocks w1 \<Rightarrow> Blocks w1
      | Returns (Inr c) w1 \<Rightarrow>
          (case GetURL ''token'' w1 of
             Panics m w' \<Rightarrow> Panics m w'
           | Blocks w' \<Rightarrow> Blocks w'
           | Returns u w' \<Rightarrow>
               (let w2 = w'\<lparr>sent := sent w' @
                            [(u, \<lparr>GrantType = ''client_credentials'',
                                  ClientId = clientId (eb w'),
                                  ClientSecret = clientSecret (eb w'),
                                  TTL = ttl\<rparr>)]\<rparr>
                in case r_End env of
                     Inl e \<Rightarrow> Returns (Some (Wrap ''refresh token error: '' e)) w2
                   | Inr res \<Rightarrow>
                       if \<not> OK res
                       then Returns (Some (ErrorString
                              (''refresh token error: '' @ Status res @ '', '' @ Text res))) w2
                       else (case JSON res of
                               Inl e \<Rightarrow> Returns (Some (Wrap ''refresh token error: '' e)) w2
                             | Inr resp \<Rightarrow>
                                 if length (TrimSpace (AccessToken resp)) < 1
                                 then Returns (Some (ErrorString
                                        ''refresh token error: access token is empty'')) w2
                                 else if mu_locked w2 then Blocks w2
                                 else Returns None
                                   (w2\<lparr>eb := (eb w2)\<lparr>
                                      accessToken := AccessToken resp,
                                      accessTokenExpiresAt :=
                                        Add (r_Now env) (ExpiresIn resp * Second)\<rparr>\<rparr>)))))"

text \<open>
  What else happens in the system: a ticker fires, \<^verbatim>\<open>limiter()\<close> takes a step, or some
  caller runs \<^verbatim>\<open>getLimiter\<close>. A caller that finds no case of its \<^verbatim>\<open>select\<close> ready stays
  parked and changes nothing.
\<close>

datatype event = Tick ref | Limiter bool | Acquire ctx bool

fun run :: "event list \<Rightarrow> world \<Rightarrow> world" where
  "run [] w = w"
| "run (Tick t # es) w = run es (tick t w)"
| "run (Limiter p # es) w = run es (case limiter p w of None \<Rightarrow> w | Some w' \<Rightarrow> w')"
| "run (Acquire c p # es) w =
     run es (case getLimiter w c p of
               Returns r w' \<Rightarrow> w'
             | Panics m w' \<Rightarrow> w'
             | Blocks w' \<Rightarrow> w')"

text \<open>How many of the \<^verbatim>\<open>getLimiter\<close> calls of a schedule are admitted (return \<^verbatim>\<open>nil\<close>).\<close>

fun admitted :: "event list \<Rightarrow> world \<Rightarrow> nat" where
  "admitted [] w = 0"
| "admitted (Tick t # es) w = admitted es (tick t w)"
| "admitted (Limiter p # es) w =
     admitted es (case limiter p w of None \<Rightarrow> w | Some w' \<Rightarrow> w')"
| "admitted (Acquire c p # es) w =
     (case getLimiter w c p of
        Returns None w' \<Rightarrow> Suc (admitted es w')
      | Returns (Some e) w' \<Rightarrow> admitted es w'
      | Panics m w' \<Rightarrow> admitted es w'
      | Blocks w' \<Rightarrow> admitted es w')"

text \<open>
  What the outside world gives one \<^verbatim>\<open>GetAccessClient\<close> call: the choice of its own
  \<^verbatim>\<open>select\<close>, the value of \<^verbatim>\<open>time.Now()\<close> in the expiry test, and, when it refreshes, what
  the rest of the system does between its own permit and the refresh (\<open>a_bg\<close>), the state of
  the context by then, and what the refresh is given.
\<close>

record access_env =
  a_pick :: bool
  a_Now :: time
  a_bg :: "event list"
  a_ctx :: ctx
  a_refresh :: refresh_env

definition bearer :: "world \<Rightarrow> Client" where
  "bearer w = Set ''Authorization'' (''Bearer '' @ accessToken (eb w)) (Clone (client (eb w)))"

definition GetAccessClient :: "world \<Rightarrow> ctx \<Rightarrow> access_env \<Rightarrow> (error + Client) outcome" where
  "GetAccessClient w ctx env =
     (case getLimiter w ctx (a_pick env) of
        Returns (Some e) w1 \<Rightarrow> Returns (Inl e) w1
      | Panics m w1 \<Rightarrow> Panics m w1
      | Blocks w1 \<Rightarrow> Blocks w1
      | Returns None w1 \<Rightarrow>
          if mu_locked w1 then Blocks w1
          else if Before (accessTokenExpiresAt (eb w1)) (a_Now env)
                  \<or> length (accessToken (eb w1)) < 1
          then (case RefreshToken (run (a_bg env) w1) (a_ctx env) 0 (a_refresh env) of
                  Returns (Some e) w2 \<Rightarrow> Returns (Inl (Wrap ''refresh token error: '' e)) w2
                | Returns None w2 \<Rightarrow>
                    if mu_locked w2 then Blocks w2 else Returns (Inr (bearer w2)) w2
                | Panics m w2 \<Rightarrow> Panics m w2
                | Blocks w2 \<Rightarrow> Blocks w2)
          else Returns (Inr (bearer w1)) w1)"

section \<open>Auxiliary notions and example systems\<close>

text \<open>Within range: the two references of the struct point into the store.\<close>

definition wf :: "world \<Rightarrow> bool" where
  "wf w = (limiterChan (eb w) < length (chans w)
           \<and> limiterResetTicker (eb w) < length (tickers w))"

text \<open>A client just constructed, before its \<^verbatim>\<open>limiter()\<close> goroutine was first scheduled.\<close>

definition fresh :: world where
  "fresh = projr (NewEasemob ''a1.easemob.com'' ''org'' ''app'' ''id'' ''secret'')"

text \<open>The same client once \<^verbatim>\<open>limiter()\<close> is parked in its \<^verbatim>\<open>select\<close> and one caller was admitted.\<close>

definition full1 :: world where
  "full1 = run [Limiter True, Acquire Active True] fresh"

text \<open>The world a call leaves behind, whatever its outcome.\<close>

fun world_of :: "'a outcome \<Rightarrow> world" where
  "world_of (Returns r w) = w"
| "world_of (Panics m w) = w"
| "world_of (Blocks w) = w"

text \<open>
  A client reconfigured to two permits per second right after construction, and the same
  once \<^verbatim>\<open>limiter()\<close> is parked in its \<^verbatim>\<open>select\<close> (then on the new ticker, number 1) and
  one caller, or two callers, were admitted.
\<close>

definition two :: world where
  "two = world_of (SetLimiter 2 Second fresh)"

definition one2 :: world where
  "one2 = run [Limiter True, Acquire Active True] two"

definition full2 :: world where
  "full2 = run [Limiter True, Acquire Active True, Acquire Active True] two"

text \<open>The pool of \<open>w\<close> emptied and the reset loop back at the top of its \<^verbatim>\<open>for\<close>.\<close>

definition drained :: "world \<Rightarrow> world" where
  "drained w = w\<lparr>chans := (chans w)[limiterChan (eb w) := (theChan w)\<lparr>ch_buf := []\<rparr>],
                 lpc := LSelect\<rparr>"

text \<open>
  A failed credential exchange, in the words of the specification: a transport error, a
  status that is not a success, or a decoded response whose token is empty or white space
  only; and, as the code has it besides, a body that does not decode.
\<close>

definition refresh_fails :: "error + response \<Rightarrow> bool" where
  "refresh_fails r =
     (case r of
        Inl e \<Rightarrow> True
      | Inr res \<Rightarrow>
          \<not> OK res \<or>
          (case JSON res of Inl e \<Rightarrow> True | Inr resp \<Rightarrow> TrimSpace (AccessToken resp) = []))"

text \<open>The request \<^verbatim>\<open>RefreshToken(ctx, ttl)\<close> sends.\<close>

definition token_request :: "world \<Rightarrow> 64 word \<Rightarrow> url \<times> refreshTokenReq" where
  "token_request w ttl =
     (ResolveReference (baseURL_Host (eb w)) [orgName (eb w), appName (eb w), ''token''],
      \<lparr>GrantType = ''client_credentials'', ClientId = clientId (eb w),
       ClientSecret = clientSecret (eb w), TTL = ttl\<rparr>)"

text \<open>
  A client with ten permits per second; a credential exchange that answers with a token and
  \<^verbatim>\<open>expires_in\<close> 0 at instant 100; the client after that exchange; and a call of
  \<^verbatim>\<open>GetAccessClient\<close> one nanosecond later.
\<close>

definition roomy :: world where
  "roomy = world_of (SetLimiter 10 Second fresh)"

definition answer0 :: response where
  "answer0 = \<lparr>OK = True, Status = ''200 OK'', Text = ''{...}'',
              JSON = Inr \<lparr>Application = ''8be024f0'', AccessToken = ''YWMtWY779DgJ'',
                          ExpiresIn = 0\<rparr>\<rparr>"

definition exchange0 :: refresh_env where
  "exchange0 = \<lparr>r_pick = True, r_End = Inr answer0, r_Now = 100\<rparr>"

definition tok0 :: world where
  "tok0 = world_of (RefreshToken roomy Active 0 exchange0)"

definition later0 :: access_env where
  "later0 = \<lparr>a_pick = True, a_Now = 101, a_bg = [], a_ctx = Active,
             a_refresh = \<lparr>r_pick = True, r_End = Inr answer0, r_Now = 102\<rparr>\<rparr>"

text \<open>The answer of the specification's scenario: status 401, the body naming the error.\<close>

definition answer401 :: response where
  "answer401 = \<lparr>OK = False, Status = ''401 Unauthorized'',
                Text = ''{error:invalid_client}'',
                JSON = Inl (External ''unexpected end of JSON input'')\<rparr>"

definition exchange401 :: refresh_env where
  "exchange401 = \<lparr>r_pick = True, r_End = Inr answer401, r_Now = 100\<rparr>"


text \<open>
  A call of \<^verbatim>\<open>GetAccessClient\<close> at instant 99, before that token's expiry, and the client
  once the limiter has admitted it.
\<close>

definition early0 :: access_env where
  "early0 = later0\<lparr>a_Now := 99\<rparr>"

definition admitted0 :: world where
  "admitted0 = world_of (getLimiter tok0 Active True)"

text \<open>
  A first call of \<^verbatim>\<open>GetAccessClient\<close> on the client with ten permits, at instant 50; its
  credential exchange is answered at instant 100 with a token and \<^verbatim>\<open>expires_in\<close> 3600.
\<close>

definition answer1h :: response where
  "answer1h = \<lparr>OK = True, Status = ''200 OK'', Text = ''{...}'',
               JSON = Inr \<lparr>Application = ''8be024f0'', AccessToken = ''YWMtWY779DgJ'',
                           ExpiresIn = 3600\<rparr>\<rparr>"

definition first1h :: access_env where
  "first1h = \<lparr>a_pick = True, a_Now = 50, a_bg = [], a_ctx = Active,
              a_refresh = \<lparr>r_pick = True, r_End = Inr answer1h, r_Now = 100\<rparr>\<rparr>"

definition tok1h :: world where
  "tok1h = world_of (GetAccessClient roomy Active first1h)"

text \<open>
  The reset loop is idle: it stands at its \<^verbatim>\<open>select\<close> with no tick waiting for it (or is
  parked there), no shutdown is under way, and the permit channel is open.
\<close>

definition idle :: "world \<Rightarrow> bool" where
  "idle w =
     ((case lpc w of
         LWait t \<Rightarrow> True
       | LSelect \<Rightarrow> \<not> tk_pending (tickers w ! limiterResetTicker (eb w))
       | _ \<Rightarrow> False)
      \<and> \<not> exit_sender w \<and> \<not> ch_closed (theChan w)
      \<and> limiterChan (eb w) < length (chans w))"

fun is_Tick :: "event \<Rightarrow> bool" where
  "is_Tick (Tick t) = True"
| "is_Tick (Limiter p) = False"
| "is_Tick (Acquire c p) = False"







section \<open>Construction\<close>

text \<open>
  Claim C8. \<^verbatim>\<open>NewEasemob\<close> returns an error exactly when one of its five arguments is
  empty, and then no client; otherwise it returns a client that holds the five arguments, an
  empty token, an open and empty permit channel, a running ticker, and whose reset loop has
  been started (it stands at the top of its loop and no shutdown is pending).
\<close>

theorem NewEasemob_validates:
  "(case NewEasemob host org app cid secret of
      Inl e \<Rightarrow>
        (host = [] \<or> org = [] \<or> app = [] \<or> cid = [] \<or> secret = [])
        \<and> e = ErrorString ''invalid params''
    | Inr w \<Rightarrow>
        (host \<noteq> [] \<and> org \<noteq> [] \<and> app \<noteq> [] \<and> cid \<noteq> [] \<and> secret \<noteq> [])
        \<and> baseURL_Host (eb w) = host \<and> orgName (eb w) = org \<and> appName (eb w) = app
        \<and> clientId (eb w) = cid \<and> clientSecret (eb w) = secret
        \<and> accessToken (eb w) = [] \<and> wf w
        \<and> lpc w = LSelect \<and> \<not> exit_sender w
        \<and> tk_running (tickers w ! limiterResetTicker (eb w))
        \<and> \<not> ch_closed (theChan w) \<and> occupancy w = 0)"
  by (simp add: NewEasemob_def wf_def theChan_def occupancy_def)

section \<open>Cancellation\<close>

text \<open>
  Claim C7. A caller is blocked in \<^verbatim>\<open>getLimiter\<close> when the send cannot proceed. When its
  context fires then, the call returns the context's error, and the whole system, the
  occupancy of the permit pool with it, is as it was: nothing was deposited.
\<close>

theorem getLimiter_cancelled:
  assumes "\<not> send_ready w" and "ctx \<noteq> Active"
  shows "\<exists>e w'. getLimiter w ctx pick = Returns (Some e) w' \<and> ctx_Err ctx = Some e
           \<and> w' = w \<and> occupancy w' = occupancy w"
  using assms by (cases ctx) (simp_all add: getLimiter_def)

theorem getLimiter_cancelled_witness:
  "\<not> send_ready full1 \<and> CtxCanceled \<noteq> Active
   \<and> getLimiter full1 CtxCanceled True = Returns (Some Canceled) full1
   \<and> occupancy full1 = 1"
  using getLimiter_cancelled [of full1 CtxCanceled True]
  by (simp add: full1_def fresh_def NewEasemob_def limiter_def getLimiter_def
      send_ready_def send_def occupancy_def theChan_def)

section \<open>The reset\<close>

lemma limiter_LLoop:
  "lpc w = LLoop i \<Longrightarrow>
   limiter p w = Some (if i < ch_cap (theChan w) then w\<lparr>lpc := LRecv i\<rparr> else w\<lparr>lpc := LSelect\<rparr>)"
  by (simp add: limiter_def)

lemma limiter_LRecv_nonempty:
  "lpc w = LRecv i \<Longrightarrow> ch_buf (theChan w) \<noteq> [] \<Longrightarrow>
   limiter p w = Some (w\<lparr>chans := (chans w)[limiterChan (eb w) :=
                           (theChan w)\<lparr>ch_buf := tl (ch_buf (theChan w))\<rparr>],
                         lpc := LLoop (Suc i)\<rparr>)"
  by (simp add: limiter_def theChan_def Let_def)

text \<open>
  The loop \<^verbatim>\<open>for i := 0; i < cap(eb.limiterChan); i++ { <-eb.limiterChan }\<close> from
  iteration \<open>i\<close> on, when the pool holds exactly the \<open>n\<close> values the remaining iterations
  will receive: two steps for each value (the test, the receive) and the last test.
\<close>

lemma drain_loop:
  "limiterChan (eb w) < length (chans w) \<Longrightarrow> lpc w = LLoop i \<Longrightarrow>
   length (ch_buf (theChan w)) = n \<Longrightarrow> i + n = ch_cap (theChan w) \<Longrightarrow>
   limiter_run (2 * n + 1) w = drained w"
proof (induction n arbitrary: w i)
  case 0
  then have "limiter True w = Some (w\<lparr>lpc := LSelect\<rparr>)"
    by (simp add: limiter_LLoop)
  moreover have "(theChan w)\<lparr>ch_buf := []\<rparr> = theChan w"
    using 0 by simp
  ultimately show ?case
    by (simp add: drained_def theChan_def)
next
  case (Suc n)
  let ?c = "limiterChan (eb w)"
  let ?w1 = "w\<lparr>lpc := LRecv i\<rparr>"
  let ?w2 = "w\<lparr>chans := (chans w)[?c := (theChan w)\<lparr>ch_buf := tl (ch_buf (theChan w))\<rparr>],
               lpc := LLoop (Suc i)\<rparr>"
  have s1: "limiter True w = Some ?w1"
    using Suc.prems by (simp add: limiter_LLoop)
  have ne: "ch_buf (theChan w) \<noteq> []"
    using Suc.prems by auto
  have s2: "limiter True ?w1 = Some ?w2"
    using limiter_LRecv_nonempty [of ?w1 i True] ne by (simp add: theChan_def)
  have ch2: "theChan ?w2 = (theChan w)\<lparr>ch_buf := tl (ch_buf (theChan w))\<rparr>"
    using Suc.prems by (simp add: theChan_def)
  have "limiter_run (2 * n + 1) ?w2 = drained ?w2"
  proof (rule Suc.IH)
    show "limiterChan (eb ?w2) < length (chans ?w2)" using Suc.prems by simp
    show "lpc ?w2 = LLoop (Suc i)" by simp
    show "length (ch_buf (theChan ?w2)) = n" using Suc.prems by (simp add: ch2)
    show "Suc i + n = ch_cap (theChan ?w2)" using Suc.prems by (simp add: ch2)
  qed
  moreover have "drained ?w2 = drained w"
    by (simp add: drained_def ch2)
  moreover have "limiter_run (2 * Suc n + 1) w = limiter_run (2 * n + 1) ?w2"
    using s1 s2 by simp
  ultimately show ?case by simp
qed

text \<open>
  Claim C1, as the code has it. The reset is not one step. With both permits of a pool of
  two held, the tick and the first receive leave one permit in the pool, and a caller that
  runs then is admitted, so that the pool is full again in the middle of the reset. With
  one permit of two held, the loop receives it and then parks in its second receive, the
  reset unfinished: it waits for a future acquisition, and takes that caller's permit out
  of the pool when it comes.
\<close>

theorem reset_not_atomic:
  "occupancy full2 = 2 \<and> ch_cap (theChan full2) = 2
   \<and> occupancy (run [Tick 1, Limiter True, Limiter True] full2) = 1
   \<and> lpc (run [Tick 1, Limiter True, Limiter True] full2) = LLoop 1
   \<and> occupancy (run [Tick 1, Limiter True, Limiter True, Acquire Active True] full2) = 2
   \<and> occupancy one2 = 1 \<and> ch_cap (theChan one2) = 2
   \<and> lpc (limiter_run 5 (tick 1 one2)) = LParked 1 1
   \<and> limiter True (limiter_run 5 (tick 1 one2)) = None
   \<and> admitted [Acquire Active True] (limiter_run 5 (tick 1 one2)) = 1
   \<and> occupancy (run [Acquire Active True] (limiter_run 5 (tick 1 one2))) = 0"
  by code_simp

text \<open>
  Claim C1, amended. When the tick reaches the reset loop parked in its \<^verbatim>\<open>select\<close> and the
  pool is full, the loop, running on its own, receives the permits one after the other,
  as many as the capacity: after its \<open>2 * cap + 1\<close> steps the pool is empty and the loop is
  back at its \<^verbatim>\<open>select\<close>.
\<close>

theorem reset_drains_full_pool:
  assumes "wf w" and "lpc w = LWait t" and "tk_running (tickers w ! t)"
    and "occupancy w = ch_cap (theChan w)"
  shows "limiter_run (2 * ch_cap (theChan w) + 1) (tick t w) = drained w
         \<and> occupancy (drained w) = 0 \<and> lpc (drained w) = LSelect"
proof -
  have tk: "tick t w = w\<lparr>lpc := LLoop 0\<rparr>"
    using assms by (simp add: tick_def)
  have "limiter_run (2 * ch_cap (theChan w) + 1) (w\<lparr>lpc := LLoop 0\<rparr>)
        = drained (w\<lparr>lpc := LLoop 0\<rparr>)"
    using assms
    by (intro drain_loop [where i = 0]) (simp_all add: wf_def theChan_def occupancy_def)
  moreover have "drained (w\<lparr>lpc := LLoop 0\<rparr>) = drained w"
    by (simp add: drained_def theChan_def)
  moreover have "occupancy (drained w) = 0"
    using assms by (simp add: drained_def occupancy_def theChan_def wf_def)
  ultimately show ?thesis
    by (simp add: tk drained_def)
qed

theorem reset_drains_full_pool_witness:
  "wf full2 \<and> lpc full2 = LWait 1 \<and> tk_running (tickers full2 ! 1)
   \<and> occupancy full2 = ch_cap (theChan full2)
   \<and> limiter_run 5 (tick 1 full2) = drained full2
   \<and> occupancy full2 = 2 \<and> occupancy (drained full2) = 0 \<and> lpc (drained full2) = LSelect"
proof -
  have h: "wf full2" "lpc full2 = LWait 1" "tk_running (tickers full2 ! 1)"
    "occupancy full2 = ch_cap (theChan full2)" "ch_cap (theChan full2) = 2"
    "occupancy full2 = 2"
    by code_simp+
  show ?thesis
    using reset_drains_full_pool [OF h(1-4)] h by simp
qed

section \<open>Reconfiguration\<close>

text \<open>
  Claim C2, on the code. \<^verbatim>\<open>SetLimiter(10, 1)\<close>, the call of the README, on a client whose
  reset loop is parked in its \<^verbatim>\<open>select\<close>: the call returns with the old ticker (number 0)
  still running beside the new one (number 1), and with the loop still parked on the old
  ticker. When the old ticker fires next, the loop wakes and drains the new pool.
\<close>

theorem SetLimiter_leaves_old_ticker_running:
  "lpc (run [Limiter True] fresh) = LWait 0
   \<and> (let w = world_of (SetLimiter 10 1 (run [Limiter True] fresh))
      in SetLimiter 10 1 (run [Limiter True] fresh) = Returns () w
         \<and> limiterResetTicker (eb w) = 1 \<and> limiterChan (eb w) = 1
         \<and> tk_running (tickers w ! 0) \<and> tk_running (tickers w ! 1)
         \<and> lpc w = LWait 0
         \<and> occupancy (run [Acquire Active True] w) = 1
         \<and> occupancy (run [Acquire Active True, Tick 0, Limiter True, Limiter True] w) = 0)"
  by code_simp

section \<open>The window\<close>

text \<open>
  While the reset loop is idle the pool does bound admission: a step of the loop changes
  nothing but its place, a caller is admitted exactly when the pool has room, and so a
  schedule without a tick admits no more callers than the pool has free slots.
\<close>

lemma idle_limiter:
  assumes "idle w"
  shows "case limiter p w of
           None \<Rightarrow> True
         | Some w' \<Rightarrow> idle w' \<and> theChan w' = theChan w"
  using assms
  by (auto simp: idle_def limiter_def theChan_def Let_def split: lpc.splits)

lemma idle_getLimiter:
  assumes "idle w"
  shows "getLimiter w c p =
     (if occupancy w < ch_cap (theChan w) \<and> (c = Active \<or> p)
      then Returns None
        (w\<lparr>chans := (chans w)[limiterChan (eb w) :=
              (theChan w)\<lparr>ch_buf := ch_buf (theChan w) @ [True]\<rparr>]\<rparr>)
      else if c \<noteq> Active then Returns (ctx_Err c) w else Blocks w)"
  using assms
  by (auto simp: idle_def getLimiter_def send_ready_def send_def occupancy_def theChan_def
      Let_def split: lpc.splits)

lemma idle_window:
  "idle w \<Longrightarrow> \<not> list_ex is_Tick es \<Longrightarrow> occupancy w \<le> ch_cap (theChan w) \<Longrightarrow>
   admitted es w + occupancy w \<le> ch_cap (theChan w)"
proof (induction es arbitrary: w)
  case Nil
  then show ?case by simp
next
  case (Cons ev es)
  show ?case
  proof (cases ev)
    case (Tick t)
    with Cons.prems show ?thesis by simp
  next
    case (Limiter p)
    show ?thesis
    proof (cases "limiter p w")
      case None
      with Limiter Cons show ?thesis by simp
    next
      case (Some w')
      with idle_limiter [OF Cons.prems(1), of p]
      have "idle w'" and "theChan w' = theChan w" by simp_all
      with Cons.IH [of w'] Cons.prems Limiter Some show ?thesis
        by (simp add: occupancy_def)
    qed
  next
    case (Acquire c p)
    let ?w' = "w\<lparr>chans := (chans w)[limiterChan (eb w) :=
                 (theChan w)\<lparr>ch_buf := ch_buf (theChan w) @ [True]\<rparr>]\<rparr>"
    show ?thesis
    proof (cases "occupancy w < ch_cap (theChan w) \<and> (c = Active \<or> p)")
      case True
      have i: "idle ?w'"
        using Cons.prems(1) by (auto simp: idle_def theChan_def split: lpc.splits)
      have o: "occupancy ?w' = Suc (occupancy w)" "ch_cap (theChan ?w') = ch_cap (theChan w)"
        using Cons.prems(1) by (simp_all add: idle_def occupancy_def theChan_def)
      have "admitted es ?w' + occupancy ?w' \<le> ch_cap (theChan ?w')"
        using i Cons.prems(2) True by (intro Cons.IH) (simp_all add: o)
      then show ?thesis
        using True Acquire by (simp add: idle_getLimiter [OF Cons.prems(1)] o)
    next
      case False
      have "admitted (ev # es) w = admitted es w"
        using False Acquire
        by (cases c) (auto simp: idle_getLimiter [OF Cons.prems(1)])
      with Cons.IH [of w] Cons.prems show ?thesis by simp
    qed
  qed
qed

lemma idle_admits:
  "idle w \<Longrightarrow> occupancy w + n \<le> ch_cap (theChan w) \<Longrightarrow>
   admitted (replicate n (Acquire Active p)) w = n"
proof (induction n arbitrary: w)
  case 0
  show ?case by simp
next
  case (Suc n)
  let ?w' = "w\<lparr>chans := (chans w)[limiterChan (eb w) :=
               (theChan w)\<lparr>ch_buf := ch_buf (theChan w) @ [True]\<rparr>]\<rparr>"
  have i: "idle ?w'"
    using Suc.prems(1) by (auto simp: idle_def theChan_def split: lpc.splits)
  have o: "occupancy ?w' = Suc (occupancy w)" "ch_cap (theChan ?w') = ch_cap (theChan w)"
    using Suc.prems(1) by (simp_all add: idle_def occupancy_def theChan_def)
  have "admitted (replicate n (Acquire Active p)) ?w' = n"
    using i Suc.prems(2) by (intro Suc.IH) (simp_all add: o)
  then show ?case
    using Suc.prems(2) by (simp add: idle_getLimiter [OF Suc.prems(1)])
qed

text \<open>
  Claim C3, on the code. Rate 2. A tick finds the pool empty: the reset loop parks in its
  first receive. From there on the pool is empty and no ticker fires, and yet four callers
  in a row are admitted: the loop takes the permits of the first two out of the pool as
  they come, and the pool then has room for two more.
\<close>

theorem third_acquire_admitted_without_tick:
  "(let w = run [Limiter True, Tick 1, Limiter True, Limiter True] two
    in ch_cap (theChan w) = 2 \<and> occupancy w = 0 \<and> lpc w = LParked 0 1
       \<and> admitted [Acquire Active True, Limiter True, Limiter True,
                    Acquire Active True, Limiter True, Limiter True,
                    Acquire Active True] w = 3
       \<and> admitted [Acquire Active True, Limiter True, Limiter True,
                    Acquire Active True, Limiter True, Limiter True,
                    Acquire Active True, Acquire Active True] w = 4)"
  by code_simp

text \<open>
  Claim C9, on the code. A client just constructed has a pool of capacity 1 and a ticker of
  period one second. After a second without any caller (one tick) the reset loop is parked
  in its receive, and then two callers in a row are admitted at once, within the same
  second; only the third is not.
\<close>

theorem default_limiter_admits_two:
  "ch_cap (theChan fresh) = 1
   \<and> tk_period (tickers fresh ! limiterResetTicker (eb fresh)) = Second
   \<and> sint Second = 1000000000
   \<and> (let w = run [Limiter True, Tick 0, Limiter True, Limiter True] fresh
      in occupancy w = 0 \<and> lpc w = LParked 0 0
         \<and> admitted [Acquire Active True, Limiter True, Limiter True,
                      Acquire Active True] w = 2
         \<and> admitted [Acquire Active True, Limiter True, Limiter True,
                      Acquire Active True, Acquire Active True] w = 2)"
  by code_simp

section \<open>What the limiter leaves alone\<close>

lemma send_keeps:
  "eb (world_of (send w)) = eb w" "sent (world_of (send w)) = sent w"
  "exit_sender (world_of (send w)) = exit_sender w"
  by (simp_all add: send_def Let_def split: lpc.splits)

lemma getLimiter_keeps:
  "eb (world_of (getLimiter w ctx p)) = eb w" "sent (world_of (getLimiter w ctx p)) = sent w"
  "exit_sender (world_of (getLimiter w ctx p)) = exit_sender w"
  by (simp_all add: getLimiter_def send_keeps)

lemma getLimiter_Returns_keeps:
  assumes "getLimiter w ctx p = Returns r w1"
  shows "eb w1 = eb w" and "sent w1 = sent w" and "exit_sender w1 = exit_sender w"
  using getLimiter_keeps [of w ctx p] assms by simp_all

lemma send_Returns: "send w = Returns r w' \<Longrightarrow> r = None"
  by (auto simp: send_def Let_def split: if_splits lpc.splits)

lemma getLimiter_error:
  "getLimiter w ctx p = Returns (Some e) w' \<Longrightarrow> w' = w \<and> ctx_Err ctx = Some e"
  by (auto simp: getLimiter_def split: if_splits dest: send_Returns)

lemma tick_keeps:
  "eb (tick t w) = eb w" "sent (tick t w) = sent w"
  by (simp_all add: tick_def)

lemma limiter_keeps:
  assumes "limiter p w = Some w'"
  shows "eb w' = eb w" and "sent w' = sent w"
  using assms by (auto simp: limiter_def Let_def split: lpc.splits if_splits)

lemma run_keeps:
  "eb (run es w) = eb w \<and> sent (run es w) = sent w"
proof (induction es arbitrary: w)
  case Nil
  show ?case by simp
next
  case (Cons ev es)
  show ?case
  proof (cases ev)
    case (Tick t)
    then show ?thesis using Cons.IH [of "tick t w"] by (simp add: tick_keeps)
  next
    case (Limiter p)
    then show ?thesis
      using Cons.IH by (cases "limiter p w") (simp_all add: limiter_keeps)
  next
    case (Acquire c p)
    have "run (ev # es) w = run es (world_of (getLimiter w c p))"
      using Acquire by (cases "getLimiter w c p") simp_all
    then show ?thesis
      using Cons.IH [of "world_of (getLimiter w c p)"] by (simp add: getLimiter_keeps)
  qed
qed

lemma GetBaseClient_admitted:
  assumes "GetBaseClient w ctx p = Returns (Inr c) w1"
  shows "eb w1 = eb w" and "sent w1 = sent w" and "\<not> mu_locked w1"
    and "getLimiter w ctx p = Returns None w1"
proof -
  from assms have g: "getLimiter w ctx p = Returns None w1" and l: "\<not> mu_locked w1"
    by (auto simp: GetBaseClient_def split: outcome.splits option.splits if_splits)
  show "getLimiter w ctx p = Returns None w1" by (rule g)
  show "\<not> mu_locked w1" by (rule l)
  show "eb w1 = eb w" "sent w1 = sent w"
    using getLimiter_Returns_keeps [OF g] by simp_all
qed

text \<open>\<^verbatim>\<open>RefreshToken\<close> once its own \<^verbatim>\<open>GetBaseClient\<close> was admitted: the request is sent, and the
  answer decides.\<close>

lemma RefreshToken_admitted:
  assumes "GetBaseClient w ctx (r_pick env) = Returns (Inr c) w1"
  shows "RefreshToken w ctx ttl env =
     (let w2 = w1\<lparr>sent := sent w @ [token_request w ttl]\<rparr>
      in case r_End env of
           Inl e \<Rightarrow> Returns (Some (Wrap ''refresh token error: '' e)) w2
         | Inr res \<Rightarrow>
             if \<not> OK res
             then Returns (Some (ErrorString
                    (''refresh token error: '' @ Status res @ '', '' @ Text res))) w2
             else (case JSON res of
                     Inl e \<Rightarrow> Returns (Some (Wrap ''refresh token error: '' e)) w2
                   | Inr resp \<Rightarrow>
                       if TrimSpace (AccessToken resp) = []
                       then Returns (Some (ErrorString
                              ''refresh token error: access token is empty'')) w2
                       else Returns None
                         (w2\<lparr>eb := (eb w)\<lparr>
                            accessToken := AccessToken resp,
                            accessTokenExpiresAt :=
                              Add (r_Now env) (ExpiresIn resp * Second)\<rparr>\<rparr>)))"
  using GetBaseClient_admitted(1-3) [OF assms] assms
  by (simp add: RefreshToken_def GetURL_def token_request_def Let_def mu_locked_def
      split: sum.splits)

lemma RefreshToken_error_keeps_cache:
  assumes "RefreshToken w ctx ttl env = Returns (Some e) w'"
  shows "accessToken (eb w') = accessToken (eb w)
         \<and> accessTokenExpiresAt (eb w') = accessTokenExpiresAt (eb w)"
proof (cases "GetBaseClient w ctx (r_pick env)")
  case (Returns r w1)
  show ?thesis
  proof (cases r)
    case (Inl e1)
    then have "getLimiter w ctx (r_pick env) = Returns (Some e1) w1"
      using Returns
      by (auto simp: GetBaseClient_def split: outcome.splits option.splits if_splits)
    then have "w1 = w" by (simp add: getLimiter_error)
    moreover have "w' = w1"
      using assms Returns Inl by (simp add: RefreshToken_def)
    ultimately show ?thesis by simp
  next
    case (Inr c)
    with Returns have adm: "GetBaseClient w ctx (r_pick env) = Returns (Inr c) w1" by simp
    have "eb w1 = eb w" by (rule GetBaseClient_admitted(1) [OF adm])
    then show ?thesis
      using assms unfolding RefreshToken_admitted [OF adm]
      by (auto simp: Let_def split: sum.splits if_splits)
  qed
next
  case (Panics m w1)
  then show ?thesis using assms by (simp add: RefreshToken_def)
next
  case (Blocks w1)
  then show ?thesis using assms by (simp add: RefreshToken_def)
qed

section \<open>Failed refresh\<close>

text \<open>
  Claim C6. Whenever \<^verbatim>\<open>RefreshToken\<close> returns an error, the cached token and its expiry
  are what they were. And once its own admission is granted, every failed exchange
  (transport error, status that is not a success, body that does not decode, token that is
  empty or white space) makes it return an error; for a status that is not a success the
  text of the error is \<^verbatim>\<open>refresh token error: \<close> followed by the status, a comma and the
  body text.
\<close>

theorem RefreshToken_failure:
  "(\<forall>e w'. RefreshToken w ctx ttl env = Returns (Some e) w' \<longrightarrow>
       accessToken (eb w') = accessToken (eb w)
       \<and> accessTokenExpiresAt (eb w') = accessTokenExpiresAt (eb w))
   \<and> (\<forall>c w1. GetBaseClient w ctx (r_pick env) = Returns (Inr c) w1
               \<and> refresh_fails (r_End env) \<longrightarrow>
         (\<exists>e w'. RefreshToken w ctx ttl env = Returns (Some e) w'
            \<and> accessToken (eb w') = accessToken (eb w)
            \<and> accessTokenExpiresAt (eb w') = accessTokenExpiresAt (eb w)
            \<and> (\<forall>res. r_End env = Inr res \<and> \<not> OK res \<longrightarrow>
                 Error e = ''refresh token error: '' @ Status res @ '', '' @ Text res)))"
proof (intro conjI allI impI)
  fix e w'
  assume "RefreshToken w ctx ttl env = Returns (Some e) w'"
  then have k: "accessToken (eb w') = accessToken (eb w)
      \<and> accessTokenExpiresAt (eb w') = accessTokenExpiresAt (eb w)"
    by (rule RefreshToken_error_keeps_cache)
  from k show "accessToken (eb w') = accessToken (eb w)" by simp
  from k show "accessTokenExpiresAt (eb w') = accessTokenExpiresAt (eb w)" by simp
next
  fix c w1
  assume a: "GetBaseClient w ctx (r_pick env) = Returns (Inr c) w1 \<and> refresh_fails (r_End env)"
  then have adm: "GetBaseClient w ctx (r_pick env) = Returns (Inr c) w1"
    and f: "refresh_fails (r_End env)" by simp_all
  have "\<exists>e w'. RefreshToken w ctx ttl env = Returns (Some e) w'
      \<and> (\<forall>res. r_End env = Inr res \<and> \<not> OK res \<longrightarrow>
            Error e = ''refresh token error: '' @ Status res @ '', '' @ Text res)"
    using f unfolding RefreshToken_admitted [OF adm]
    by (auto simp: refresh_fails_def Let_def split: sum.splits)
  then obtain e w' where r: "RefreshToken w ctx ttl env = Returns (Some e) w'"
    and m: "\<forall>res. r_End env = Inr res \<and> \<not> OK res \<longrightarrow>
            Error e = ''refresh token error: '' @ Status res @ '', '' @ Text res"
    by blast
  from RefreshToken_error_keeps_cache [OF r] r m
  show "\<exists>e w'. RefreshToken w ctx ttl env = Returns (Some e) w'
            \<and> accessToken (eb w') = accessToken (eb w)
            \<and> accessTokenExpiresAt (eb w') = accessTokenExpiresAt (eb w)
            \<and> (\<forall>res. r_End env = Inr res \<and> \<not> OK res \<longrightarrow>
                 Error e = ''refresh token error: '' @ Status res @ '', '' @ Text res)"
    by blast
qed

theorem RefreshToken_failure_witness:
  "refresh_fails (r_End exchange401)
   \<and> GetBaseClient tok0 Active (r_pick exchange401)
       = Returns (Inr (client (eb tok0))) (world_of (getLimiter tok0 Active True))
   \<and> (\<exists>e w'. RefreshToken tok0 Active 0 exchange401 = Returns (Some e) w'
        \<and> accessToken (eb w') = ''YWMtWY779DgJ''
        \<and> accessTokenExpiresAt (eb w') = 100
        \<and> Error e = ''refresh token error: 401 Unauthorized, {error:invalid_client}'')"
proof -
  have f: "refresh_fails (r_End exchange401)" by code_simp
  have t: "accessToken (eb tok0) = ''YWMtWY779DgJ''" "accessTokenExpiresAt (eb tok0) = 100"
    by code_simp+
  have e: "r_End exchange401 = Inr answer401" "\<not> OK answer401"
    "Status answer401 = ''401 Unauthorized''" "Text answer401 = ''{error:invalid_client}''"
    by code_simp+
  have adm: "GetBaseClient tok0 Active (r_pick exchange401)
       = Returns (Inr (client (eb tok0))) (world_of (getLimiter tok0 Active True))"
    by code_simp
  from RefreshToken_failure [of tok0 Active 0 exchange401] f adm
  obtain e1 w' where r: "RefreshToken tok0 Active 0 exchange401 = Returns (Some e1) w'"
    and k: "accessToken (eb w') = accessToken (eb tok0)"
      "accessTokenExpiresAt (eb w') = accessTokenExpiresAt (eb tok0)"
    and m: "\<forall>res. r_End exchange401 = Inr res \<and> \<not> OK res \<longrightarrow>
         Error e1 = ''refresh token error: '' @ Status res @ '', '' @ Text res"
    by blast
  from m e have "Error e1 = ''refresh token error: 401 Unauthorized, {error:invalid_client}''"
    by simp
  with r k t f adm show ?thesis by simp
qed

section \<open>A token that is still valid\<close>

text \<open>
  Claim C5. When the cached token is not empty and its expiry is strictly after the instant
  \<^verbatim>\<open>GetAccessClient\<close> reads from the clock, the call sends no credential exchange request
  and leaves the struct as it is, whatever the limiter does with it; and once admitted it
  returns a handle whose \<^verbatim>\<open>Authorization\<close> header is \<^verbatim>\<open>Bearer \<close> followed by the cached
  token.
\<close>

theorem GetAccessClient_valid_token:
  assumes "accessToken (eb w) \<noteq> []" and "a_Now env < accessTokenExpiresAt (eb w)"
  shows "sent (world_of (GetAccessClient w ctx env)) = sent w
         \<and> eb (world_of (GetAccessClient w ctx env)) = eb w
         \<and> (\<forall>w1. getLimiter w ctx (a_pick env) = Returns None w1 \<and> \<not> mu_locked w1 \<longrightarrow>
               GetAccessClient w ctx env = Returns (Inr (bearer w1)) w1
               \<and> map_of (cl_headers (bearer w1)) ''Authorization''
                   = Some (''Bearer '' @ accessToken (eb w)))"
proof -
  have same: "world_of (GetAccessClient w ctx env) = world_of (getLimiter w ctx (a_pick env))"
  proof (cases "getLimiter w ctx (a_pick env)")
    case (Returns r w1)
    then have "eb w1 = eb w" by (rule getLimiter_Returns_keeps)
    with Returns assms show ?thesis
      by (cases r) (simp_all add: GetAccessClient_def Before_def)
  next
    case (Panics m w1)
    then show ?thesis by (simp add: GetAccessClient_def)
  next
    case (Blocks w1)
    then show ?thesis by (simp add: GetAccessClient_def)
  qed
  have adm: "GetAccessClient w ctx env = Returns (Inr (bearer w1)) w1
             \<and> map_of (cl_headers (bearer w1)) ''Authorization''
                 = Some (''Bearer '' @ accessToken (eb w))"
    if g: "getLimiter w ctx (a_pick env) = Returns None w1" and l: "\<not> mu_locked w1" for w1
  proof -
    have e: "eb w1 = eb w" using g by (rule getLimiter_Returns_keeps)
    show ?thesis
      using g l e assms by (simp add: GetAccessClient_def Before_def bearer_def Set_def)
  qed
  show ?thesis
    using same adm by (simp add: getLimiter_keeps)
qed

theorem GetAccessClient_valid_token_witness:
  "accessToken (eb tok0) \<noteq> [] \<and> a_Now early0 < accessTokenExpiresAt (eb tok0)
   \<and> sent (world_of (GetAccessClient tok0 Active early0)) = sent tok0
   \<and> getLimiter tok0 Active (a_pick early0) = Returns None admitted0
   \<and> GetAccessClient tok0 Active early0 = Returns (Inr (bearer admitted0)) admitted0
   \<and> map_of (cl_headers (bearer admitted0)) ''Authorization'' = Some ''Bearer YWMtWY779DgJ''"
proof -
  have h: "accessToken (eb tok0) \<noteq> []" "a_Now early0 < accessTokenExpiresAt (eb tok0)"
    by code_simp+
  have g: "getLimiter tok0 Active (a_pick early0) = Returns None admitted0"
    and l: "\<not> mu_locked admitted0"
    and t: "''Bearer '' @ accessToken (eb tok0) = ''Bearer YWMtWY779DgJ''"
    by code_simp+
  note T = GetAccessClient_valid_token [OF h, of Active]
  from T have a: "sent (world_of (GetAccessClient tok0 Active early0)) = sent tok0"
    by (rule conjunct1)
  from T g l have b: "GetAccessClient tok0 Active early0 = Returns (Inr (bearer admitted0)) admitted0
      \<and> map_of (cl_headers (bearer admitted0)) ''Authorization''
          = Some (''Bearer '' @ accessToken (eb tok0))"
    by blast
  from h a g b show ?thesis
    unfolding t by blast
qed

section \<open>An empty token\<close>

lemma sint_seconds:
  fixes x :: "64 word"
  assumes "- 9223372036 \<le> sint x" and "sint x \<le> 9223372036"
  shows "sint (x * Second) = sint x * 1000000000"
proof -
  have s: "sint Second = 1000000000" by (simp add: Second_def)
  have lo: "- 9223372036 * 1000000000 \<le> sint x * 1000000000"
    using assms(1) by simp
  have hi: "sint x * 1000000000 \<le> 9223372036 * 1000000000"
    using assms(2) by simp
  have "sint (x * Second) = signed_take_bit 63 (sint x * sint Second)"
    by (simp add: sint_word_ariths)
  also have "\<dots> = sint x * 1000000000"
    unfolding s using lo hi by (intro signed_take_bit_int_eq_self) simp_all
  finally show ?thesis .
qed

text \<open>
  With an empty token, once admitted, \<^verbatim>\<open>GetAccessClient\<close> is one call of
  \<^verbatim>\<open>RefreshToken(ctx, 0)\<close> and what follows from its result: an error is wrapped and
  returned, success gives the handle.
\<close>

lemma GetAccessClient_refresh:
  assumes "accessToken (eb w) = []"
    and "getLimiter w ctx (a_pick env) = Returns None w1" and "\<not> mu_locked w1"
  shows "GetAccessClient w ctx env =
     (case RefreshToken (run (a_bg env) w1) (a_ctx env) 0 (a_refresh env) of
        Returns (Some e) w2 \<Rightarrow> Returns (Inl (Wrap ''refresh token error: '' e)) w2
      | Returns None w2 \<Rightarrow>
          if mu_locked w2 then Blocks w2 else Returns (Inr (bearer w2)) w2
      | Panics m w2 \<Rightarrow> Panics m w2
      | Blocks w2 \<Rightarrow> Blocks w2)"
proof -
  have "eb w1 = eb w" using assms(2) by (rule getLimiter_Returns_keeps)
  then show ?thesis
    using assms by (simp add: GetAccessClient_def)
qed

lemma world_of_GetAccessClient_refresh:
  assumes "accessToken (eb w) = []"
    and "getLimiter w ctx (a_pick env) = Returns None w1" and "\<not> mu_locked w1"
  shows "world_of (GetAccessClient w ctx env)
         = world_of (RefreshToken (run (a_bg env) w1) (a_ctx env) 0 (a_refresh env))"
  unfolding GetAccessClient_refresh [OF assms]
  by (simp split: outcome.splits option.splits)

text \<open>
  Claim C4, on the code. A token obtained at instant 100 with \<^verbatim>\<open>expires_in\<close> 0 is stored
  with expiry 100, and the call of \<^verbatim>\<open>GetAccessClient\<close> at instant 101 sends a second
  credential exchange request: the token is treated as expired, not as never expiring.
\<close>

theorem zero_expires_in_is_refreshed_again:
  "RefreshToken roomy Active 0 exchange0 = Returns None tok0
   \<and> r_End exchange0 = Inr answer0 \<and> r_Now exchange0 = 100
   \<and> map_sum id ExpiresIn (JSON answer0) = Inr 0
   \<and> accessToken (eb tok0) = ''YWMtWY779DgJ''
   \<and> accessTokenExpiresAt (eb tok0) = 100
   \<and> length (sent tok0) = 1
   \<and> a_Now later0 = 101
   \<and> length (sent (world_of (GetAccessClient tok0 Active later0))) = 2"
  by code_simp

text \<open>
  Claim C4, amended. With an empty cached token, once the call and its refresh are both
  admitted by the limiter, \<^verbatim>\<open>GetAccessClient\<close> sends exactly one credential exchange
  request (with \<^verbatim>\<open>ttl\<close> 0). When the exchange succeeds, the call returns a handle that
  carries the returned token, the cached token is the returned token, and the cached
  expiry is the instant of the refresh plus \<^verbatim>\<open>expires_in\<close> seconds, computed in 64 bits
  (without wrap-around up to 9223372036 seconds). For \<^verbatim>\<open>expires_in\<close> 0 the expiry is the
  instant of the refresh itself, so the token counts as expired at every later instant.
\<close>

theorem GetAccessClient_empty_token:
  assumes "accessToken (eb w) = []"
    and "getLimiter w ctx (a_pick env) = Returns None w1" and "\<not> mu_locked w1"
    and "GetBaseClient (run (a_bg env) w1) (a_ctx env) (r_pick (a_refresh env))
           = Returns (Inr c) w2"
  shows "sent (world_of (GetAccessClient w ctx env)) = sent w @ [token_request w 0]
    \<and> (\<forall>res resp. r_End (a_refresh env) = Inr res \<and> OK res \<and> JSON res = Inr resp
          \<and> TrimSpace (AccessToken resp) \<noteq> [] \<longrightarrow>
        (\<exists>w3. GetAccessClient w ctx env = Returns (Inr (bearer w3)) w3
           \<and> map_of (cl_headers (bearer w3)) ''Authorization''
               = Some (''Bearer '' @ AccessToken resp)
           \<and> accessToken (eb w3) = AccessToken resp
           \<and> accessTokenExpiresAt (eb w3)
               = r_Now (a_refresh env) + sint (ExpiresIn resp * Second)
           \<and> (- 9223372036 \<le> sint (ExpiresIn resp) \<and> sint (ExpiresIn resp) \<le> 9223372036
                \<longrightarrow> accessTokenExpiresAt (eb w3)
                     = r_Now (a_refresh env) + sint (ExpiresIn resp) * 1000000000)
           \<and> (ExpiresIn resp = 0 \<longrightarrow>
                accessTokenExpiresAt (eb w3) = r_Now (a_refresh env)
                \<and> (\<forall>t. r_Now (a_refresh env) < t \<longrightarrow>
                       Before (accessTokenExpiresAt (eb w3)) t))))"
proof -
  let ?w' = "run (a_bg env) w1"
  let ?renv = "a_refresh env"
  have e1: "eb w1 = eb w" and s1: "sent w1 = sent w"
    using assms(2) by (rule getLimiter_Returns_keeps)+
  have e': "eb ?w' = eb w" and s': "sent ?w' = sent w"
    using run_keeps [of "a_bg env" w1] e1 s1 by simp_all
  have tr: "token_request ?w' 0 = token_request w 0"
    by (simp add: token_request_def e')
  have l2: "\<not> mu_locked w2" by (rule GetBaseClient_admitted(3) [OF assms(4)])
  note R = RefreshToken_admitted [OF assms(4), of 0, unfolded tr s' e']
  note G = GetAccessClient_refresh [OF assms(1-3)]
  have "sent (world_of (RefreshToken ?w' (a_ctx env) 0 ?renv)) = sent w @ [token_request w 0]"
    unfolding R by (simp add: Let_def split: sum.splits)
  then have first: "sent (world_of (GetAccessClient w ctx env)) = sent w @ [token_request w 0]"
    by (simp add: world_of_GetAccessClient_refresh [OF assms(1-3)])
  have second: "\<exists>w3. GetAccessClient w ctx env = Returns (Inr (bearer w3)) w3
           \<and> map_of (cl_headers (bearer w3)) ''Authorization''
               = Some (''Bearer '' @ AccessToken resp)
           \<and> accessToken (eb w3) = AccessToken resp
           \<and> accessTokenExpiresAt (eb w3) = r_Now ?renv + sint (ExpiresIn resp * Second)
           \<and> (- 9223372036 \<le> sint (ExpiresIn resp) \<and> sint (ExpiresIn resp) \<le> 9223372036
                \<longrightarrow> accessTokenExpiresAt (eb w3)
                     = r_Now ?renv + sint (ExpiresIn resp) * 1000000000)
           \<and> (ExpiresIn resp = 0 \<longrightarrow>
                accessTokenExpiresAt (eb w3) = r_Now ?renv
                \<and> (\<forall>t. r_Now ?renv < t \<longrightarrow> Before (accessTokenExpiresAt (eb w3)) t))"
    if ok: "r_End ?renv = Inr res \<and> OK res \<and> JSON res = Inr resp
          \<and> TrimSpace (AccessToken resp) \<noteq> []" for res resp
  proof -
    let ?w3 = "w2\<lparr>sent := sent w @ [token_request w 0],
                  eb := (eb w)\<lparr>accessToken := AccessToken resp,
                    accessTokenExpiresAt := Add (r_Now ?renv) (ExpiresIn resp * Second)\<rparr>\<rparr>"
    have r: "RefreshToken ?w' (a_ctx env) 0 ?renv = Returns None ?w3"
      unfolding R using ok by (simp add: Let_def)
    have l3: "\<not> mu_locked ?w3" using l2 by (simp add: mu_locked_def)
    have g: "GetAccessClient w ctx env = Returns (Inr (bearer ?w3)) ?w3"
      unfolding G r using l3 by simp
    have hd: "map_of (cl_headers (bearer ?w3)) ''Authorization''
               = Some (''Bearer '' @ AccessToken resp)"
      by (simp add: bearer_def Set_def)
    have ex: "accessTokenExpiresAt (eb ?w3) = r_Now ?renv + sint (ExpiresIn resp * Second)"
      by (simp add: Add_def)
    have small: "accessTokenExpiresAt (eb ?w3) = r_Now ?renv + sint (ExpiresIn resp) * 1000000000"
      if "- 9223372036 \<le> sint (ExpiresIn resp) \<and> sint (ExpiresIn resp) \<le> 9223372036"
      using that by (simp add: Add_def sint_seconds)
    have zero: "accessTokenExpiresAt (eb ?w3) = r_Now ?renv
                \<and> (\<forall>t. r_Now ?renv < t \<longrightarrow> Before (accessTokenExpiresAt (eb ?w3)) t)"
      if "ExpiresIn resp = 0"
      using that by (simp add: Add_def Before_def)
    have tk: "accessToken (eb ?w3) = AccessToken resp" by simp
    from g hd tk ex small zero show ?thesis by blast
  qed
  from first second show ?thesis by blast
qed

theorem GetAccessClient_empty_token_witness:
  "accessToken (eb roomy) = []
   \<and> getLimiter roomy Active (a_pick first1h)
       = Returns None (world_of (getLimiter roomy Active True))
   \<and> GetBaseClient (run (a_bg first1h) (world_of (getLimiter roomy Active True)))
        (a_ctx first1h) (r_pick (a_refresh first1h))
       = Returns (Inr (client (eb roomy))) (run [Acquire Active True, Acquire Active True] roomy)
   \<and> GetAccessClient roomy Active first1h = Returns (Inr (bearer tok1h)) tok1h
   \<and> sent tok1h = [token_request roomy 0]
   \<and> accessToken (eb tok1h) = ''YWMtWY779DgJ''
   \<and> accessTokenExpiresAt (eb tok1h) = 100 + 3600 * 1000000000"
proof -
  have h: "accessToken (eb roomy) = []"
    "getLimiter roomy Active (a_pick first1h)
       = Returns None (world_of (getLimiter roomy Active True))"
    "\<not> mu_locked (world_of (getLimiter roomy Active True))"
    "GetBaseClient (run (a_bg first1h) (world_of (getLimiter roomy Active True)))
        (a_ctx first1h) (r_pick (a_refresh first1h))
       = Returns (Inr (client (eb roomy))) (run [Acquire Active True, Acquire Active True] roomy)"
    by code_simp+
  have a: "r_End (a_refresh first1h) = Inr answer1h \<and> OK answer1h
      \<and> JSON answer1h = Inr \<lparr>Application = ''8be024f0'', AccessToken = ''YWMtWY779DgJ'',
                           ExpiresIn = 3600\<rparr>
      \<and> TrimSpace (AccessToken \<lparr>Application = ''8be024f0'', AccessToken = ''YWMtWY779DgJ'',
                           ExpiresIn = 3600\<rparr>) \<noteq> []"
    by code_simp
  have n: "r_Now (a_refresh first1h) = 100" by code_simp
  note T = GetAccessClient_empty_token [OF h]
  from T have s: "sent (world_of (GetAccessClient roomy Active first1h))
      = sent roomy @ [token_request roomy 0]"
    by (rule conjunct1)
  have s0: "sent roomy = []" by code_simp
  from T a obtain w3 where g: "GetAccessClient roomy Active first1h = Returns (Inr (bearer w3)) w3"
    and t: "accessToken (eb w3) = ''YWMtWY779DgJ''"
    and x: "- 9223372036 \<le> sint (3600 :: 64 word) \<and> sint (3600 :: 64 word) \<le> 9223372036
         \<longrightarrow> accessTokenExpiresAt (eb w3) = r_Now (a_refresh first1h) + sint (3600 :: 64 word) * 1000000000"
    by fastforce
  from g have w3: "w3 = tok1h" by (simp add: tok1h_def)
  from x n have "accessTokenExpiresAt (eb w3) = 100 + 3600 * 1000000000" by simp
  with g t s s0 h show ?thesis unfolding w3 by (simp add: tok1h_def)
qed

section \<open>After shutdown\<close>
















end
